theory Spec2Isabelle
  imports Complex_Main "HOL-Library.Sublist"
begin

section \<open>The recipe browser: data model\<close>

text \<open>
  The repository holds two variants of one React component \<open>App\<close>:
  \<^item> \<open>src/App.tsx\<close> fetches every recipe once, on mount, and paginates in the client;
  \<^item> the second file (the later variant) sends page, search text and sort parameters to
    the API, and adds a detail overlay for a selected recipe.
  Component state (\<open>useState\<close>) is a record, each handler a function on that record, and
  the asynchronous \<open>fetchRecipes\<close> is split at its \<open>await\<close>: the part that runs before
  the request is issued, and the part that runs once the request has settled.

  JavaScript numbers that hold counts, pages and indices are modelled as \<open>int\<close>; the
  rating, a fraction, as \<open>real\<close>.
\<close>

record Recipe =
  recipe_id :: int
  name :: string
  recipe_image :: string
  mealType :: "string list"
  prepTimeMinutes :: int
  cookTimeMinutes :: int
  servings :: int
  caloriesPerServing :: int
  rating :: real
  difficulty :: string
  ingredients :: "string list"
  instructions :: "string list"

subsection \<open>What the platform provides\<close>

text \<open>
  \<open>Array.prototype.slice(start, end)\<close>: a negative index counts from the end of the
  array, both indices are clamped to the array, and an empty range gives the empty array.
\<close>

definition js_slice :: "'a list \<Rightarrow> int \<Rightarrow> int \<Rightarrow> 'a list" where
  "js_slice xs start fin =
     (let len = int (length xs);
          k = (if start < 0 then max (len + start) 0 else min start len);
          final = (if fin < 0 then max (len + fin) 0 else min fin len)
      in take (nat (final - k)) (drop (nat k) xs))"

text \<open>
  \<open>Math.ceil(a / b)\<close> on integers. The quotient of two integers below \<open>2^32\<close> is a
  double that lies strictly between two neighbouring integers whenever the exact quotient
  does, so the exact ceiling is what the code computes.
\<close>

definition math_ceil_div :: "int \<Rightarrow> int \<Rightarrow> int" where
  "math_ceil_div a b = \<lceil>real_of_int a / real_of_int b\<rceil>"

text \<open>
  The decimal text of an integer, as a template literal interpolates it (below \<open>10^21\<close>,
  where JavaScript still prints every digit).
\<close>

definition digit_char :: "nat \<Rightarrow> char" where
  "digit_char d = ''0123456789'' ! d"

fun nat_str :: "nat \<Rightarrow> string" where
  "nat_str n = (if n < 10 then [digit_char n] else nat_str (n div 10) @ [digit_char (n mod 10)])"

declare nat_str.simps [simp del]

definition num_str :: "int \<Rightarrow> string" where
  "num_str i = (if i < 0 then CHR ''-'' # nat_str (nat (- i)) else nat_str (nat i))"

text \<open>
  What \<open>catch (e)\<close> can receive: an \<open>Error\<close> object with its message (the error the code
  throws itself, the \<open>TypeError\<close> of a failed request, the \<open>SyntaxError\<close> of a body that
  is not JSON), or any other thrown value.
\<close>

datatype thrown = ErrorObj string | OtherThrown

text \<open>
  The JSON body \<open>{recipes, total}\<close>, the response (its status, and what
  \<open>response.json()\<close> settles to), and what \<open>await fetch(url)\<close> settles to.
  \<open>response.ok\<close> is true exactly for the statuses 200 to 299.
\<close>

record 'r api_data =
  d_recipes :: "'r list"
  d_total :: int

record 'r response =
  status :: nat
  json :: "thrown + 'r api_data"

type_synonym 'r fetch_outcome = "thrown + 'r response"

definition ok :: "'r response \<Rightarrow> bool" where
  "ok r = (200 \<le> status r \<and> status r \<le> 299)"

definition RECIPES_PER_PAGE :: int where
  "RECIPES_PER_PAGE = 6"

definition http_error_message :: "nat \<Rightarrow> string" where
  "http_error_message st = ''HTTP error! status: '' @ num_str (int st)"

definition unknown_error_message :: string where
  "unknown_error_message = ''Ocorreu um erro desconhecido''"

section \<open>The client-paginated variant (\<open>src/App.tsx\<close>)\<close>

record 'r client_state =
  c_recipes :: "'r list"
  c_loading :: bool
  c_error :: "string option"
  c_currentPage :: int

definition c_init :: "'r client_state" where
  "c_init = \<lparr>c_recipes = [], c_loading = True, c_error = None, c_currentPage = 1\<rparr>"

text \<open>The part of \<open>fetchRecipes\<close> before the request: \<open>setLoading(true)\<close>.\<close>

definition c_fetchRecipes_start :: "'r client_state \<Rightarrow> 'r client_state" where
  "c_fetchRecipes_start s = s\<lparr>c_loading := True\<rparr>"

text \<open>The rest of the \<open>try\<close> block: it either throws or stores the recipes.\<close>

definition c_try_block :: "'r fetch_outcome \<Rightarrow> 'r client_state \<Rightarrow> thrown + 'r client_state" where
  "c_try_block outcome s =
     (case outcome of
        Inl e \<Rightarrow> Inl e
      | Inr resp \<Rightarrow>
          if \<not> ok resp then Inl (ErrorObj (http_error_message (status resp)))
          else (case json resp of
                  Inl e \<Rightarrow> Inl e
                | Inr d \<Rightarrow> Inr (s\<lparr>c_recipes := d_recipes d\<rparr>)))"

definition c_catch_block :: "thrown \<Rightarrow> 'r client_state \<Rightarrow> 'r client_state" where
  "c_catch_block e s =
     (case e of
        ErrorObj m \<Rightarrow> s\<lparr>c_error := Some m\<rparr>
      | OtherThrown \<Rightarrow> s\<lparr>c_error := Some unknown_error_message\<rparr>)"

definition c_fetchRecipes_settle :: "'r fetch_outcome \<Rightarrow> 'r client_state \<Rightarrow> 'r client_state" where
  "c_fetchRecipes_settle outcome s =
     (let s' = (case c_try_block outcome s of Inl e \<Rightarrow> c_catch_block e s | Inr t \<Rightarrow> t)
      in s'\<lparr>c_loading := False\<rparr>)"

text \<open>The effect has no dependencies: it runs once, on mount.\<close>

definition c_mount :: "'r client_state" where
  "c_mount = c_fetchRecipes_start c_init"

subsection \<open>Derived pagination values\<close>

definition indexOfLastRecipe :: "'r client_state \<Rightarrow> int" where
  "indexOfLastRecipe s = c_currentPage s * RECIPES_PER_PAGE"

definition indexOfFirstRecipe :: "'r client_state \<Rightarrow> int" where
  "indexOfFirstRecipe s = indexOfLastRecipe s - RECIPES_PER_PAGE"

definition currentRecipes :: "'r client_state \<Rightarrow> 'r list" where
  "currentRecipes s = js_slice (c_recipes s) (indexOfFirstRecipe s) (indexOfLastRecipe s)"

definition c_totalPages :: "'r client_state \<Rightarrow> int" where
  "c_totalPages s = math_ceil_div (int (length (c_recipes s))) RECIPES_PER_PAGE"

subsection \<open>The pagination buttons\<close>

text \<open>
  The list and its buttons are rendered only past the two early returns
  (\<open>if (loading) return ...\<close>, \<open>if (error) return ...\<close>; \<open>null\<close> and the empty string
  are the falsy values of \<open>error\<close>). A button that is not rendered or is \<open>disabled\<close>
  receives no click: the state stays as it is.
\<close>

definition error_truthy :: "string option \<Rightarrow> bool" where
  "error_truthy e = (case e of None \<Rightarrow> False | Some m \<Rightarrow> m \<noteq> [])"

definition c_main_view :: "'r client_state \<Rightarrow> bool" where
  "c_main_view s = (\<not> c_loading s \<and> \<not> error_truthy (c_error s))"

definition prev_page :: "int \<Rightarrow> int" where
  "prev_page p = max (p - 1) 1"

definition next_page :: "int \<Rightarrow> int \<Rightarrow> int" where
  "next_page tp p = min (p + 1) tp"

definition c_click_prev :: "'r client_state \<Rightarrow> 'r client_state" where
  "c_click_prev s =
     (if c_main_view s \<and> \<not> (c_currentPage s = 1)
      then s\<lparr>c_currentPage := prev_page (c_currentPage s)\<rparr> else s)"

definition c_click_next :: "'r client_state \<Rightarrow> 'r client_state" where
  "c_click_next s =
     (if c_main_view s \<and> \<not> (c_currentPage s = c_totalPages s)
      then s\<lparr>c_currentPage := next_page (c_totalPages s) (c_currentPage s)\<rparr> else s)"

datatype 'r client_event = CSettled "'r fetch_outcome" | CClickPrev | CClickNext

fun c_step :: "'r client_state \<Rightarrow> 'r client_event \<Rightarrow> 'r client_state" where
  "c_step s (CSettled outcome) = c_fetchRecipes_settle outcome s"
| "c_step s CClickPrev = c_click_prev s"
| "c_step s CClickNext = c_click_next s"

definition c_run :: "'r client_event list \<Rightarrow> 'r client_state" where
  "c_run evs = foldl c_step c_mount evs"

section \<open>The server-paginated variant (search, sorting, detail overlay)\<close>

record app_state =
  recipes :: "Recipe list"
  loading :: bool
  error :: "string option"
  currentPage :: int
  totalPages :: int
  searchQuery :: string
  sortBy :: string
  sortOrder :: string
  selectedRecipe :: "Recipe option"

definition init_state :: app_state where
  "init_state =
     \<lparr>recipes = [], loading = True, error = None, currentPage = 1, totalPages = 0,
      searchQuery = [], sortBy = ''name'', sortOrder = ''asc'', selectedRecipe = None\<rparr>"

subsection \<open>\<open>fetchRecipes\<close>\<close>

text \<open>Before the request: \<open>setError(null); setLoading(false)\<close>, then the URL.\<close>

definition fetchRecipes_start :: "app_state \<Rightarrow> app_state" where
  "fetchRecipes_start s = s\<lparr>error := None, loading := False\<rparr>"

definition skip :: "app_state \<Rightarrow> int" where
  "skip s = (currentPage s - 1) * RECIPES_PER_PAGE"

definition search_path :: string where
  "search_path = ''https://dummyjson.com/recipes/search?q=''"

definition listing_path :: string where
  "listing_path = ''https://dummyjson.com/recipes?''"

definition query_tail :: "app_state \<Rightarrow> string" where
  "query_tail s =
     ''limit='' @ num_str RECIPES_PER_PAGE @ ''&skip='' @ num_str (skip s) @
     ''&sortBy='' @ sortBy s @ ''&order='' @ sortOrder s"

text \<open>A string is truthy exactly when it is not empty.\<close>

definition request_url :: "app_state \<Rightarrow> string" where
  "request_url s =
     (if searchQuery s \<noteq> [] then search_path @ searchQuery s @ ''&'' @ query_tail s
      else listing_path @ query_tail s)"

definition try_block :: "Recipe fetch_outcome \<Rightarrow> app_state \<Rightarrow> thrown + app_state" where
  "try_block outcome s =
     (case outcome of
        Inl e \<Rightarrow> Inl e
      | Inr resp \<Rightarrow>
          if \<not> ok resp then Inl (ErrorObj (http_error_message (status resp)))
          else (case json resp of
                  Inl e \<Rightarrow> Inl e
                | Inr d \<Rightarrow>
                    Inr (s\<lparr>recipes := d_recipes d,
                           totalPages := math_ceil_div (d_total d) RECIPES_PER_PAGE\<rparr>)))"

definition catch_block :: "thrown \<Rightarrow> app_state \<Rightarrow> app_state" where
  "catch_block e s =
     (let s1 = (case e of
                  ErrorObj m \<Rightarrow> s\<lparr>error := Some m\<rparr>
                | OtherThrown \<Rightarrow> s\<lparr>error := Some unknown_error_message\<rparr>)
      in s1\<lparr>recipes := [], totalPages := 0\<rparr>)"

definition fetchRecipes_settle :: "Recipe fetch_outcome \<Rightarrow> app_state \<Rightarrow> app_state" where
  "fetchRecipes_settle outcome s =
     (let s' = (case try_block outcome s of Inl e \<Rightarrow> catch_block e s | Inr t \<Rightarrow> t)
      in s'\<lparr>loading := False\<rparr>)"

text \<open>
  The effect's dependency array: \<open>fetchRecipes\<close> runs on mount, and after a render in
  which one of these four values differs from the render before.
\<close>

definition effect_deps :: "app_state \<Rightarrow> int \<times> string \<times> string \<times> string" where
  "effect_deps s = (currentPage s, searchQuery s, sortBy s, sortOrder s)"

definition fetch_triggered :: "app_state \<Rightarrow> app_state \<Rightarrow> bool" where
  "fetch_triggered old new = (effect_deps new \<noteq> effect_deps old)"

definition after_render :: "app_state \<Rightarrow> app_state \<Rightarrow> app_state" where
  "after_render old new = (if fetch_triggered old new then fetchRecipes_start new else new)"

definition mount :: app_state where
  "mount = fetchRecipes_start init_state"

subsection \<open>Handlers\<close>

definition handleSearchChange :: "string \<Rightarrow> app_state \<Rightarrow> app_state" where
  "handleSearchChange v s = s\<lparr>searchQuery := v, currentPage := 1\<rparr>"

definition setSortBy :: "string \<Rightarrow> app_state \<Rightarrow> app_state" where
  "setSortBy v s = s\<lparr>sortBy := v\<rparr>"

definition setSortOrder :: "string \<Rightarrow> app_state \<Rightarrow> app_state" where
  "setSortOrder v s = s\<lparr>sortOrder := v\<rparr>"

definition onCardClick :: "Recipe \<Rightarrow> app_state \<Rightarrow> app_state" where
  "onCardClick r s = s\<lparr>selectedRecipe := Some r\<rparr>"

definition onClose :: "app_state \<Rightarrow> app_state" where
  "onClose s = s\<lparr>selectedRecipe := None\<rparr>"

subsection \<open>What is rendered\<close>

definition main_view :: "app_state \<Rightarrow> bool" where
  "main_view s = (\<not> loading s \<and> \<not> error_truthy (error s))"

definition pagination_shown :: "app_state \<Rightarrow> bool" where
  "pagination_shown s = (main_view s \<and> totalPages s > 1)"

definition detail_shown :: "app_state \<Rightarrow> bool" where
  "detail_shown s = (main_view s \<and> selectedRecipe s \<noteq> None)"

definition click_prev :: "app_state \<Rightarrow> app_state" where
  "click_prev s =
     (if pagination_shown s \<and> \<not> (currentPage s = 1)
      then s\<lparr>currentPage := prev_page (currentPage s)\<rparr> else s)"

definition click_next :: "app_state \<Rightarrow> app_state" where
  "click_next s =
     (if pagination_shown s \<and> \<not> (currentPage s = totalPages s)
      then s\<lparr>currentPage := next_page (totalPages s) (currentPage s)\<rparr> else s)"

subsection \<open>The detail overlay\<close>

text \<open>
  \<open>xs.map((x, index) => <li key={index}>{x}</li>)\<close>: one list item per element, in the
  array's order, keyed by its index.
\<close>

datatype list_item = Li (li_key: nat) (li_text: string)

definition map_indexed :: "('a \<Rightarrow> nat \<Rightarrow> 'b) \<Rightarrow> 'a list \<Rightarrow> 'b list" where
  "map_indexed f xs = map2 f xs [0..<length xs]"

record detail_view =
  dv_name :: string
  dv_difficulty :: string
  dv_ingredients :: "list_item list"
  dv_instructions :: "list_item list"

definition RecipeDetail :: "Recipe \<Rightarrow> detail_view" where
  "RecipeDetail r =
     \<lparr>dv_name = name r, dv_difficulty = difficulty r,
      dv_ingredients = map_indexed (\<lambda>ingredient index. Li index ingredient) (ingredients r),
      dv_instructions = map_indexed (\<lambda>instruction index. Li index instruction) (instructions r)\<rparr>"

text \<open>The overlay is rendered under \<open>selectedRecipe && ...\<close>.\<close>

definition render_detail :: "app_state \<Rightarrow> detail_view option" where
  "render_detail s =
     (if main_view s then map_option RecipeDetail (selectedRecipe s) else None)"

text \<open>
  A click on an element of the overlay bubbles from the element to its ancestors, running
  each \<open>onClick\<close> on the way, until a handler calls \<open>stopPropagation\<close>. The overlay
  (\<open>modal-overlay\<close>) holds the content (\<open>modal-content\<close>), which holds the close button
  and the elements without a handler (image, headings, lists).
\<close>

datatype modal_element = ModalOverlay | ModalContent | ModalCloseButton | ModalInner

fun bubble_path :: "modal_element \<Rightarrow> modal_element list" where
  "bubble_path ModalOverlay = [ModalOverlay]"
| "bubble_path ModalContent = [ModalContent, ModalOverlay]"
| "bubble_path ModalCloseButton = [ModalCloseButton, ModalContent, ModalOverlay]"
| "bubble_path ModalInner = [ModalInner, ModalContent, ModalOverlay]"

text \<open>The \<open>onClick\<close> of an element: what it does to the state, and whether it stops the bubbling.\<close>

fun on_click :: "modal_element \<Rightarrow> app_state \<Rightarrow> app_state \<times> bool" where
  "on_click ModalOverlay s = (onClose s, False)"
| "on_click ModalContent s = (s, True)"
| "on_click ModalCloseButton s = (onClose s, False)"
| "on_click ModalInner s = (s, False)"

fun bubble :: "modal_element list \<Rightarrow> app_state \<Rightarrow> app_state" where
  "bubble [] s = s"
| "bubble (el # els) s =
     (case on_click el s of (s', stopped) \<Rightarrow> if stopped then s' else bubble els s')"

definition click_modal :: "modal_element \<Rightarrow> app_state \<Rightarrow> app_state" where
  "click_modal target s = (if detail_shown s then bubble (bubble_path target) s else s)"

subsection \<open>The user interface as a transition system\<close>

text \<open>
  A user action reaches its handler only when its control is rendered; after the handler,
  the component renders again and the effect runs if a dependency changed. A request
  settles at any later moment, with any outcome.
\<close>

datatype event =
    Settled "Recipe fetch_outcome"
  | ClickPrev
  | ClickNext
  | SearchChange string
  | SortByChange string
  | SortOrderChange string
  | CardClick Recipe
  | ModalClick modal_element

fun handle :: "app_state \<Rightarrow> event \<Rightarrow> app_state" where
  "handle s (Settled outcome) = fetchRecipes_settle outcome s"
| "handle s ClickPrev = click_prev s"
| "handle s ClickNext = click_next s"
| "handle s (SearchChange v) = (if main_view s then handleSearchChange v s else s)"
| "handle s (SortByChange v) = (if main_view s then setSortBy v s else s)"
| "handle s (SortOrderChange v) = (if main_view s then setSortOrder v s else s)"
| "handle s (CardClick r) = (if main_view s \<and> r \<in> set (recipes s) then onCardClick r s else s)"
| "handle s (ModalClick target) = click_modal target s"

definition step :: "app_state \<Rightarrow> event \<Rightarrow> app_state" where
  "step s ev = after_render s (handle s ev)"

definition run :: "event list \<Rightarrow> app_state" where
  "run evs = foldl step mount evs"

subsection \<open>Frames and sample data\<close>

text \<open>Two states that agree on everything but the selected recipe.\<close>

definition same_but_selection :: "app_state \<Rightarrow> app_state \<Rightarrow> bool" where
  "same_but_selection s t =
     (recipes t = recipes s \<and> totalPages t = totalPages s \<and> currentPage t = currentPage s \<and>
      searchQuery t = searchQuery s \<and> sortBy t = sortBy s \<and> sortOrder t = sortOrder s \<and>
      loading t = loading s \<and> error t = error s)"

text \<open>Responses and states used as concrete inputs below.\<close>

definition empty_listing :: "Recipe fetch_outcome" where
  "empty_listing = Inr \<lparr>status = 200, json = Inr \<lparr>d_recipes = [], d_total = 0\<rparr>\<rparr>"

definition margherita :: Recipe where
  "margherita =
     \<lparr>recipe_id = 1, name = ''Classic Margherita Pizza'', recipe_image = ''1.webp'',
      mealType = [''Dinner''], prepTimeMinutes = 20, cookTimeMinutes = 15, servings = 4,
      caloriesPerServing = 300, rating = 4.6, difficulty = ''Easy'',
      ingredients = [''Pizza dough'', ''Tomato sauce'', ''Fresh mozzarella cheese''],
      instructions = [''Preheat the oven.'', ''Roll out the dough.'', ''Bake.'']\<rparr>"

definition response_13 :: "Recipe response" where
  "response_13 = \<lparr>status = 200, json = Inr \<lparr>d_recipes = [margherita], d_total = 13\<rparr>\<rparr>"

definition response_500 :: "Recipe response" where
  "response_500 = \<lparr>status = 500, json = Inl (ErrorObj ''Unexpected token'')\<rparr>"

definition busy_state :: app_state where
  "busy_state = init_state\<lparr>recipes := [margherita], totalPages := 3, loading := False\<rparr>"

definition page_3_state :: app_state where
  "page_3_state = busy_state\<lparr>currentPage := 3, searchQuery := ''pizza''\<rparr>"

definition open_state :: app_state where
  "open_state = busy_state\<lparr>selectedRecipe := Some margherita\<rparr>"

definition thirteen_on_page_3 :: "nat client_state" where
  "thirteen_on_page_3 =
     \<lparr>c_recipes = [0, 1, 2, 3, 4, 5, 6, 7, 8, 9, 10, 11, 12], c_loading = False,
      c_error = None, c_currentPage = 3\<rparr>"

section \<open>Slicing and the page count\<close>

lemma js_slice_nonneg:
  assumes "0 \<le> a" "0 \<le> b"
  shows "js_slice xs a (a + b) = take (nat b) (drop (nat a) xs)"
proof (cases "a < int (length xs)")
  case True
  with assms have "min (a + b) (int (length xs)) - a = min b (int (length xs) - a)" by linarith
  moreover have "take (nat (min b (int (length xs) - a))) (drop (nat a) xs) = take (nat b) (drop (nat a) xs)"
    using assms True by (simp add: min_def nat_diff_distrib)
  ultimately show ?thesis using assms True by (simp add: js_slice_def Let_def min_absorb1)
next
  case False
  with assms show ?thesis by (simp add: js_slice_def Let_def min_absorb2)
qed

lemma js_slice_to_zero: "a < 0 \<Longrightarrow> js_slice xs a 0 = []"
  by (simp add: js_slice_def Let_def)

lemma take_drop_nths: "take b (drop a xs) = nths xs {a..<a + b}"
proof -
  have "take b (drop a xs) = nths (drop a xs) {..<b}" by simp
  also have "\<dots> = nths xs ((+) a ` {..<b})" by (rule nths_drop)
  also have "(+) a ` {..<b} = {a..<a + b}"
    by (metis add_0 image_add_atLeastLessThan lessThan_atLeast0 add.commute)
  finally show ?thesis .
qed

lemma math_ceil_div_bounds:
  assumes "0 < b"
  shows "b * (math_ceil_div a b - 1) < a \<and> a \<le> b * math_ceil_div a b"
proof -
  let ?q = "real_of_int a / real_of_int b"
  have rb: "0 < real_of_int b" using assms by simp
  have "(real_of_int \<lceil>?q\<rceil> - 1) * real_of_int b < real_of_int a"
    using rb by (rule ceiling_divide_lower)
  then have "real_of_int ((\<lceil>?q\<rceil> - 1) * b) < real_of_int a" by simp
  then have l: "(\<lceil>?q\<rceil> - 1) * b < a" by (simp only: of_int_less_iff)
  have "real_of_int a \<le> real_of_int \<lceil>?q\<rceil> * real_of_int b"
    using rb by (rule ceiling_divide_upper)
  then have "real_of_int a \<le> real_of_int (\<lceil>?q\<rceil> * b)" by simp
  then have u: "a \<le> \<lceil>?q\<rceil> * b" by (simp only: of_int_le_iff)
  from l u show ?thesis by (simp add: math_ceil_div_def mult.commute)
qed

lemma currentRecipes_page:
  assumes "1 \<le> c_currentPage s"
  shows "currentRecipes s =
         take (nat RECIPES_PER_PAGE) (drop (nat ((c_currentPage s - 1) * RECIPES_PER_PAGE)) (c_recipes s))"
proof -
  have "0 \<le> (c_currentPage s - 1) * RECIPES_PER_PAGE"
    using assms by (simp add: RECIPES_PER_PAGE_def)
  moreover have "0 \<le> RECIPES_PER_PAGE" by (simp add: RECIPES_PER_PAGE_def)
  moreover have "indexOfFirstRecipe s = (c_currentPage s - 1) * RECIPES_PER_PAGE"
    by (simp add: indexOfFirstRecipe_def indexOfLastRecipe_def algebra_simps)
  moreover have "indexOfLastRecipe s = (c_currentPage s - 1) * RECIPES_PER_PAGE + RECIPES_PER_PAGE"
    by (simp add: indexOfLastRecipe_def algebra_simps)
  ultimately show ?thesis
    by (simp add: currentRecipes_def js_slice_nonneg)
qed

lemma currentRecipes_nths:
  assumes "0 \<le> c_currentPage s"
  shows "currentRecipes s =
         nths (c_recipes s)
           {i. (c_currentPage s - 1) * RECIPES_PER_PAGE \<le> int i \<and>
               int i < (c_currentPage s - 1) * RECIPES_PER_PAGE + RECIPES_PER_PAGE}"
proof (cases "c_currentPage s = 0")
  case True
  then have "currentRecipes s = []"
    by (simp add: currentRecipes_def indexOfFirstRecipe_def indexOfLastRecipe_def
        RECIPES_PER_PAGE_def js_slice_to_zero)
  moreover from True have
    "{i. (c_currentPage s - 1) * RECIPES_PER_PAGE \<le> int i \<and>
         int i < (c_currentPage s - 1) * RECIPES_PER_PAGE + RECIPES_PER_PAGE} = {}"
    by (auto simp: RECIPES_PER_PAGE_def)
  ultimately show ?thesis by (simp only: nths_empty)
next
  case False
  with assms have p: "1 \<le> c_currentPage s" by simp
  define a where "a = nat ((c_currentPage s - 1) * RECIPES_PER_PAGE)"
  have a: "int a = (c_currentPage s - 1) * RECIPES_PER_PAGE"
    using p by (simp add: a_def RECIPES_PER_PAGE_def)
  have "{i. (c_currentPage s - 1) * RECIPES_PER_PAGE \<le> int i \<and>
         int i < (c_currentPage s - 1) * RECIPES_PER_PAGE + RECIPES_PER_PAGE}
        = {a..<a + nat RECIPES_PER_PAGE}"
    unfolding a [symmetric] by (auto simp: RECIPES_PER_PAGE_def)
  then show ?thesis
    using currentRecipes_page [OF p] by (simp add: take_drop_nths a_def)
qed

lemma server_total_pages:
  assumes "ok resp" and "json resp = Inr d"
  shows "fetchRecipes_settle (Inr resp) s =
           s\<lparr>recipes := d_recipes d,
             totalPages := math_ceil_div (d_total d) RECIPES_PER_PAGE, loading := False\<rparr>"
  using assms by (simp add: fetchRecipes_settle_def try_block_def)

text \<open>
  Claim C4. In the client-paginated variant the displayed slice holds the elements of the
  full list at the indices from \<open>(page - 1) * pageSize\<close> up to, and excluding,
  \<open>(page - 1) * pageSize + pageSize\<close>, in the list's order, and the page count is the
  ceiling of the length over the page size: the least number of pages that hold the
  list. Thirteen recipes make three pages, and the third page shows one recipe. The
  server-paginated variant computes its page count from the reported total the same way.
  The slice is stated for the pages from 0 on, which are the pages the buttons can reach.
\<close>

theorem client_slice_and_page_count:
  assumes "0 \<le> c_currentPage s"
  shows "currentRecipes s =
           nths (c_recipes s)
             {i. (c_currentPage s - 1) * RECIPES_PER_PAGE \<le> int i \<and>
                 int i < (c_currentPage s - 1) * RECIPES_PER_PAGE + RECIPES_PER_PAGE} \<and>
         c_totalPages s = \<lceil>real (length (c_recipes s)) / real_of_int RECIPES_PER_PAGE\<rceil> \<and>
         RECIPES_PER_PAGE * (c_totalPages s - 1) < int (length (c_recipes s)) \<and>
         int (length (c_recipes s)) \<le> RECIPES_PER_PAGE * c_totalPages s \<and>
         (length (c_recipes s) = 13 \<longrightarrow>
            c_totalPages s = 3 \<and> (c_currentPage s = 3 \<longrightarrow> length (currentRecipes s) = 1)) \<and>
         (ok resp \<and> json resp = Inr d \<longrightarrow>
            totalPages (fetchRecipes_settle (Inr resp) t) =
              \<lceil>real_of_int (d_total d) / real_of_int RECIPES_PER_PAGE\<rceil>)"
proof -
  have pos: "0 < RECIPES_PER_PAGE"
    by (simp add: RECIPES_PER_PAGE_def)
  have bounds:
    "RECIPES_PER_PAGE * (c_totalPages s - 1) < int (length (c_recipes s)) \<and>
     int (length (c_recipes s)) \<le> RECIPES_PER_PAGE * c_totalPages s"
    unfolding c_totalPages_def using pos by (rule math_ceil_div_bounds)
  have ceil: "c_totalPages s = \<lceil>real (length (c_recipes s)) / real_of_int RECIPES_PER_PAGE\<rceil>"
    by (simp add: c_totalPages_def math_ceil_div_def)
  have thirteen: "c_totalPages s = 3" if "length (c_recipes s) = 13"
    using that by (simp add: c_totalPages_def math_ceil_div_def RECIPES_PER_PAGE_def)
  have last_page: "length (currentRecipes s) = 1"
    if "length (c_recipes s) = 13" "c_currentPage s = 3"
  proof -
    from that(2) have "1 \<le> c_currentPage s" by simp
    then show ?thesis
      using that by (simp add: currentRecipes_page RECIPES_PER_PAGE_def)
  qed
  have server: "totalPages (fetchRecipes_settle (Inr resp) t) =
                  \<lceil>real_of_int (d_total d) / real_of_int RECIPES_PER_PAGE\<rceil>"
    if "ok resp" "json resp = Inr d"
    using that by (simp add: server_total_pages math_ceil_div_def)
  from currentRecipes_nths [OF assms] ceil bounds thirteen last_page server
  show ?thesis by blast
qed

theorem client_slice_and_page_count_witness:
  "0 \<le> c_currentPage thirteen_on_page_3 \<and>
   length (c_recipes thirteen_on_page_3) = 13 \<and>
   c_totalPages thirteen_on_page_3 = 3 \<and>
   length (currentRecipes thirteen_on_page_3) = 1 \<and>
   ok response_13 \<and>
   totalPages (fetchRecipes_settle (Inr response_13) init_state) = 3"
proof -
  have p: "0 \<le> c_currentPage thirteen_on_page_3"
    by (simp add: thirteen_on_page_3_def)
  have n: "length (c_recipes thirteen_on_page_3) = 13"
    by (simp add: thirteen_on_page_3_def)
  have c: "c_currentPage thirteen_on_page_3 = 3"
    by (simp add: thirteen_on_page_3_def)
  have k: "ok response_13"
    by (simp add: ok_def response_13_def)
  have j: "json response_13 = Inr \<lparr>d_recipes = [margherita], d_total = 13\<rparr>"
    by (simp add: response_13_def)
  have q: "\<lceil>real_of_int (d_total \<lparr>d_recipes = [margherita], d_total = 13\<rparr>) /
            real_of_int RECIPES_PER_PAGE\<rceil> = 3"
    by (simp add: RECIPES_PER_PAGE_def)
  note th = client_slice_and_page_count [OF p, where resp = response_13 and t = init_state
      and d = "\<lparr>d_recipes = [margherita], d_total = 13\<rparr>"]
  from th n c have a:
    "c_totalPages thirteen_on_page_3 = 3 \<and> length (currentRecipes thirteen_on_page_3) = 1"
    by blast
  from th k j have
    "totalPages (fetchRecipes_settle (Inr response_13) init_state) =
       \<lceil>real_of_int (d_total \<lparr>d_recipes = [margherita], d_total = 13\<rparr>) /
        real_of_int RECIPES_PER_PAGE\<rceil>"
    by blast
  with q have b: "totalPages (fetchRecipes_settle (Inr response_13) init_state) = 3"
    by (simp only:)
  from p n a k b show ?thesis by blast
qed

lemma currentRecipes_example: "currentRecipes thirteen_on_page_3 = [12]"
  by (simp add: currentRecipes_def thirteen_on_page_3_def indexOfFirstRecipe_def
      indexOfLastRecipe_def RECIPES_PER_PAGE_def js_slice_def)

text \<open>
  Below page 0 both indices are negative and \<open>slice\<close> counts them from the end of the
  array: page \<open>-1\<close> of thirteen recipes would show the recipes at the indices 1 to 6.
\<close>

lemma currentRecipes_negative_page:
  "currentRecipes (thirteen_on_page_3\<lparr>c_currentPage := - 1\<rparr>) = [1, 2, 3, 4, 5, 6]"
  by (simp add: currentRecipes_def thirteen_on_page_3_def indexOfFirstRecipe_def
      indexOfLastRecipe_def RECIPES_PER_PAGE_def js_slice_def)

text \<open>
  Claim C9. The slice is a function of the fetched list and the page number alone: two
  states that agree on these two show the same slice, whatever else they hold, so
  computing it again for the same list and page gives the same output.
\<close>

theorem slice_depends_on_recipes_and_page_only:
  "c_recipes s = c_recipes s' \<and> c_currentPage s = c_currentPage s' \<longrightarrow>
     currentRecipes s = currentRecipes s'"
  by (simp add: currentRecipes_def indexOfFirstRecipe_def indexOfLastRecipe_def)

theorem slice_depends_on_recipes_and_page_only_witness:
  "c_recipes (thirteen_on_page_3\<lparr>c_loading := True, c_error := Some ''x''\<rparr>) =
     c_recipes thirteen_on_page_3 \<and>
   c_currentPage (thirteen_on_page_3\<lparr>c_loading := True, c_error := Some ''x''\<rparr>) =
     c_currentPage thirteen_on_page_3 \<and>
   thirteen_on_page_3\<lparr>c_loading := True, c_error := Some ''x''\<rparr> \<noteq> thirteen_on_page_3 \<and>
   currentRecipes (thirteen_on_page_3\<lparr>c_loading := True, c_error := Some ''x''\<rparr>) =
     currentRecipes thirteen_on_page_3"
proof -
  have d: "thirteen_on_page_3\<lparr>c_loading := True, c_error := Some ''x''\<rparr> \<noteq> thirteen_on_page_3"
    by (simp add: thirteen_on_page_3_def)
  from slice_depends_on_recipes_and_page_only
    [of "thirteen_on_page_3\<lparr>c_loading := True, c_error := Some ''x''\<rparr>" thirteen_on_page_3] d
  show ?thesis by simp
qed

section \<open>Behaviour of the two fetch paths\<close>

lemma nat_str_6: "nat_str 6 = ''6''"
  by code_simp

lemma nat_str_500: "nat_str 500 = ''500''"
  by code_simp

lemma num_str_RECIPES_PER_PAGE: "num_str RECIPES_PER_PAGE = ''6''"
  by (simp add: num_str_def RECIPES_PER_PAGE_def nat_str_6)

lemma http_error_message_contains_status:
  "sublist (num_str (int st)) (http_error_message st)"
  unfolding http_error_message_def by (rule sublist_append_leftI)

text \<open>
  Claim C1. At the start of a fetch the loading flag should become true and the previous
  error should be cleared. The server-paginated \<open>fetchRecipes\<close> clears the error but
  writes \<open>false\<close> to the loading flag (so does the mount); the client-paginated one
  writes \<open>true\<close>, and leaves the error as it was.
\<close>

theorem fetch_start_leaves_loading_false:
  "loading (fetchRecipes_start s) = False \<and> error (fetchRecipes_start s) = None \<and>
   loading mount = False \<and>
   c_loading (c_fetchRecipes_start c) = True \<and> c_error (c_fetchRecipes_start c) = c_error c"
  by (simp add: fetchRecipes_start_def mount_def c_fetchRecipes_start_def)

text \<open>
  Claim C3. A response whose status is outside 200 to 299 makes the attempt fail: the
  error message is the fixed text followed by the status in decimal (so it contains the
  status), the recipes become the empty list and the page count zero, whatever the state
  held before. In the client-paginated variant, whose only fetch is the one on mount, the
  list is still empty and the derived page count is zero.
\<close>

theorem non_2xx_response_is_failure:
  assumes "\<not> ok resp"
  shows "error (fetchRecipes_settle (Inr resp) s) = Some (http_error_message (status resp)) \<and>
         sublist (num_str (int (status resp))) (http_error_message (status resp)) \<and>
         recipes (fetchRecipes_settle (Inr resp) s) = [] \<and>
         totalPages (fetchRecipes_settle (Inr resp) s) = 0 \<and>
         loading (fetchRecipes_settle (Inr resp) s) = False \<and>
         c_error (c_run [CSettled (Inr resp)]) = Some (http_error_message (status resp)) \<and>
         c_recipes (c_run [CSettled (Inr resp)]) = [] \<and>
         c_totalPages (c_run [CSettled (Inr resp)]) = 0"
proof -
  have t: "try_block (Inr resp) s = Inl (ErrorObj (http_error_message (status resp)))"
    using assms by (simp add: try_block_def)
  have server: "fetchRecipes_settle (Inr resp) s =
      s\<lparr>error := Some (http_error_message (status resp)), recipes := [], totalPages := 0,
        loading := False\<rparr>"
    by (simp add: fetchRecipes_settle_def t catch_block_def)
  have ct: "c_try_block (Inr resp) c_mount = Inl (ErrorObj (http_error_message (status resp)))"
    using assms by (simp add: c_try_block_def)
  have client: "c_run [CSettled (Inr resp)] =
      c_mount\<lparr>c_error := Some (http_error_message (status resp)), c_loading := False\<rparr>"
    by (simp add: c_run_def c_fetchRecipes_settle_def ct c_catch_block_def)
  have empty: "c_recipes (c_mount :: 'a client_state) = []"
    by (simp add: c_mount_def c_fetchRecipes_start_def c_init_def)
  show ?thesis
    by (simp add: server client empty http_error_message_contains_status c_totalPages_def
        math_ceil_div_def)
qed

theorem non_2xx_response_is_failure_witness:
  "\<not> ok response_500 \<and>
   error (fetchRecipes_settle (Inr response_500) busy_state) = Some ''HTTP error! status: 500'' \<and>
   sublist ''500'' ''HTTP error! status: 500'' \<and>
   recipes busy_state = [margherita] \<and>
   recipes (fetchRecipes_settle (Inr response_500) busy_state) = [] \<and>
   totalPages (fetchRecipes_settle (Inr response_500) busy_state) = 0"
proof -
  have h: "\<not> ok response_500"
    by (simp add: ok_def response_500_def)
  have st: "status response_500 = 500"
    by (simp add: response_500_def)
  have n: "num_str 500 = ''500''"
    by (simp add: num_str_def nat_str_500)
  have m: "http_error_message 500 = ''HTTP error! status: 500''"
    by (simp add: http_error_message_def n)
  have b: "recipes busy_state = [margherita]"
    by (simp add: busy_state_def)
  show ?thesis
    using non_2xx_response_is_failure [OF h, of busy_state] h b
    by (simp add: st m n)
qed

lemma search_path_not_listing: "\<not> prefix search_path (listing_path @ rest)"
  by (simp add: search_path_def listing_path_def)

lemma listing_path_not_search: "\<not> prefix listing_path (search_path @ rest)"
  by (simp add: search_path_def listing_path_def)

text \<open>
  Claim C7. The request URL starts with the search path, followed by the search text,
  exactly when the search text is not empty, and with the plain listing path otherwise.
  Either way it goes on with the limit 6, the offset \<open>(page - 1) * 6\<close>, the sort field
  and the sort order.
\<close>

theorem request_url_shape:
  "request_url s =
     (if searchQuery s = [] then listing_path else search_path @ searchQuery s @ ''&'') @
     ''limit=6&skip='' @ num_str ((currentPage s - 1) * 6) @
     ''&sortBy='' @ sortBy s @ ''&order='' @ sortOrder s \<and>
   prefix search_path (request_url s) = (searchQuery s \<noteq> []) \<and>
   prefix listing_path (request_url s) = (searchQuery s = []) \<and>
   search_path = ''https://dummyjson.com/recipes/search?q='' \<and>
   listing_path = ''https://dummyjson.com/recipes?''"
proof -
  have tail: "query_tail s =
      ''limit=6&skip='' @ num_str ((currentPage s - 1) * 6) @
      ''&sortBy='' @ sortBy s @ ''&order='' @ sortOrder s"
    unfolding query_tail_def num_str_RECIPES_PER_PAGE skip_def
    by (simp add: RECIPES_PER_PAGE_def)
  have shape: "request_url s =
     (if searchQuery s = [] then listing_path else search_path @ searchQuery s @ ''&'') @
     query_tail s"
    by (simp add: request_url_def)
  have search: "prefix search_path (request_url s) = (searchQuery s \<noteq> [])"
    by (simp add: request_url_def search_path_not_listing)
  have listing: "prefix listing_path (request_url s) = (searchQuery s = [])"
    by (simp add: request_url_def listing_path_not_search)
  show ?thesis
    unfolding tail [symmetric]
    using shape search listing by (simp add: search_path_def listing_path_def)
qed

lemma request_url_pizza:
  "request_url (init_state\<lparr>searchQuery := ''pizza''\<rparr>) =
     ''https://dummyjson.com/recipes/search?q=pizza&limit=6&skip=0&sortBy=name&order=asc''"
proof -
  have z: "num_str 0 = ''0''" by code_simp
  show ?thesis
    by (simp add: request_url_def query_tail_def skip_def init_state_def search_path_def
        num_str_RECIPES_PER_PAGE z)
qed

lemma request_url_listing:
  "request_url init_state = ''https://dummyjson.com/recipes?limit=6&skip=0&sortBy=name&order=asc''"
proof -
  have z: "num_str 0 = ''0''" by code_simp
  show ?thesis
    by (simp add: request_url_def query_tail_def skip_def init_state_def listing_path_def
        num_str_RECIPES_PER_PAGE z)
qed

section \<open>The page number\<close>

text \<open>
  In the server-paginated variant the buttons are rendered only when there is more than
  one page, and the page number stays at least 1 along every run of events. In the
  client-paginated variant it stays at least 0.
\<close>

lemma handle_page_ge_1:
  assumes "1 \<le> currentPage s"
  shows "1 \<le> currentPage (handle s ev)"
proof (cases ev)
  case (Settled outcome)
  then show ?thesis using assms
    by (simp add: fetchRecipes_settle_def try_block_def catch_block_def Let_def
        split: sum.splits thrown.splits)
next
  case ClickPrev
  then show ?thesis using assms by (simp add: click_prev_def prev_page_def)
next
  case ClickNext
  then show ?thesis using assms
    by (simp add: click_next_def next_page_def pagination_shown_def)
next
  case (SearchChange v)
  then show ?thesis using assms by (simp add: handleSearchChange_def)
next
  case (SortByChange v)
  then show ?thesis using assms by (simp add: setSortBy_def)
next
  case (SortOrderChange v)
  then show ?thesis using assms by (simp add: setSortOrder_def)
next
  case (CardClick r)
  then show ?thesis using assms by (simp add: onCardClick_def)
next
  case (ModalClick target)
  then show ?thesis using assms
    by (cases target) (simp_all add: click_modal_def onClose_def)
qed

lemma after_render_page: "currentPage (after_render old new) = currentPage new"
  by (simp add: after_render_def fetchRecipes_start_def)

lemma step_page_ge_1: "1 \<le> currentPage s \<Longrightarrow> 1 \<le> currentPage (step s ev)"
  by (simp add: step_def after_render_page handle_page_ge_1)

lemma foldl_step_page_ge_1: "1 \<le> currentPage s \<Longrightarrow> 1 \<le> currentPage (foldl step s evs)"
  by (induction evs arbitrary: s) (simp_all add: step_page_ge_1)

lemma server_page_ge_1: "1 \<le> currentPage (run evs)"
  unfolding run_def
  by (rule foldl_step_page_ge_1) (simp add: mount_def fetchRecipes_start_def init_state_def)

lemma c_step_page_ge_0: "0 \<le> c_currentPage s \<Longrightarrow> 0 \<le> c_currentPage (c_step s ev)"
proof (cases ev)
  case (CSettled outcome)
  assume "0 \<le> c_currentPage s"
  with CSettled show ?thesis
    by (simp add: c_fetchRecipes_settle_def c_try_block_def c_catch_block_def Let_def
        split: sum.splits thrown.splits)
next
  case CClickPrev
  assume "0 \<le> c_currentPage s"
  with CClickPrev show ?thesis by (auto simp: c_click_prev_def prev_page_def)
next
  case CClickNext
  assume p: "0 \<le> c_currentPage s"
  have "0 \<le> c_totalPages s"
    by (simp add: c_totalPages_def math_ceil_div_def RECIPES_PER_PAGE_def)
  with p CClickNext show ?thesis by (auto simp: c_click_next_def next_page_def)
qed

lemma foldl_c_step_page_ge_0:
  "0 \<le> c_currentPage s \<Longrightarrow> 0 \<le> c_currentPage (foldl c_step s evs)"
  by (induction evs arbitrary: s) (simp_all add: c_step_page_ge_0)

lemma client_page_ge_0: "0 \<le> c_currentPage (c_run evs)"
  unfolding c_run_def
  by (rule foldl_c_step_page_ge_0) (simp add: c_mount_def c_fetchRecipes_start_def c_init_def)

text \<open>
  Claim C2. The page number should never fall below 1. In the client-paginated variant
  an empty listing gives zero pages, the "next" button is rendered and enabled (the page,
  1, differs from the page count, 0), and a click on it stores \<open>min 2 0 = 0\<close>.
\<close>

theorem client_next_on_empty_list_gives_page_zero:
  "c_currentPage (c_run [CSettled empty_listing]) = 1 \<and>
   c_totalPages (c_run [CSettled empty_listing]) = 0 \<and>
   c_main_view (c_run [CSettled empty_listing]) \<and>
   c_currentPage (c_run [CSettled empty_listing, CClickNext]) = 0"
  by (simp add: c_run_def empty_listing_def c_mount_def c_init_def c_fetchRecipes_start_def
      c_fetchRecipes_settle_def c_try_block_def ok_def c_click_next_def c_main_view_def
      error_truthy_def c_totalPages_def math_ceil_div_def next_page_def RECIPES_PER_PAGE_def)

text \<open>
  Claim C5. The search-change handler stores the new text and sets the page to 1, from
  any page and for any text, the empty one included; the fetch that the change triggers
  leaves both as the handler set them.
\<close>

theorem search_change_resets_page:
  "currentPage (handleSearchChange v s) = 1 \<and>
   searchQuery (handleSearchChange v s) = v \<and>
   (main_view s \<longrightarrow> currentPage (step s (SearchChange v)) = 1 \<and>
                       searchQuery (step s (SearchChange v)) = v)"
  by (simp add: handleSearchChange_def step_def after_render_def fetchRecipes_start_def)

theorem search_change_resets_page_witness:
  "main_view page_3_state \<and> currentPage page_3_state = 3 \<and>
   currentPage (step page_3_state (SearchChange [])) = 1 \<and>
   searchQuery (step page_3_state (SearchChange [])) = []"
proof -
  have m: "main_view page_3_state"
    by (simp add: main_view_def page_3_state_def busy_state_def init_state_def error_truthy_def)
  have p: "currentPage page_3_state = 3"
    by (simp add: page_3_state_def)
  from search_change_resets_page [of "[]" page_3_state] m p show ?thesis by blast
qed

text \<open>
  Claim C6. Wherever the buttons are rendered, a click on "previous" gives
  \<open>max (p - 1) 1\<close> and a click on "next" gives \<open>min (p + 1) t\<close>, in both variants (a
  disabled button leaves the page, which is the same number); so "previous" on page 1
  stays on page 1 and "next" on the last page stays on the last page.
\<close>

theorem clamp_law:
  "prev_page 1 = 1 \<and> next_page t t = t \<and>
   (pagination_shown s \<longrightarrow>
      currentPage (click_prev s) = max (currentPage s - 1) 1 \<and>
      currentPage (click_next s) = min (currentPage s + 1) (totalPages s) \<and>
      (currentPage s = 1 \<longrightarrow> currentPage (click_prev s) = 1) \<and>
      (currentPage s = totalPages s \<longrightarrow> currentPage (click_next s) = totalPages s)) \<and>
   (c_main_view c \<longrightarrow>
      c_currentPage (c_click_prev c) = max (c_currentPage c - 1) 1 \<and>
      c_currentPage (c_click_next c) = min (c_currentPage c + 1) (c_totalPages c) \<and>
      (c_currentPage c = 1 \<longrightarrow> c_currentPage (c_click_prev c) = 1) \<and>
      (c_currentPage c = c_totalPages c \<longrightarrow> c_currentPage (c_click_next c) = c_totalPages c))"
proof -
  have updaters: "prev_page 1 = 1 \<and> next_page t t = t"
    by (simp add: prev_page_def next_page_def)
  have server_prev: "currentPage (click_prev s) = max (currentPage s - 1) 1"
    if "pagination_shown s"
    using that by (simp add: click_prev_def prev_page_def)
  have server_next: "currentPage (click_next s) = min (currentPage s + 1) (totalPages s)"
    if "pagination_shown s"
    using that by (simp add: click_next_def next_page_def)
  have client_prev: "c_currentPage (c_click_prev c) = max (c_currentPage c - 1) 1"
    if "c_main_view c"
    using that by (simp add: c_click_prev_def prev_page_def)
  have client_next: "c_currentPage (c_click_next c) = min (c_currentPage c + 1) (c_totalPages c)"
    if "c_main_view c"
    using that by (simp add: c_click_next_def next_page_def)
  show ?thesis
    using updaters server_prev server_next client_prev client_next by simp
qed

theorem clamp_law_witness:
  "pagination_shown page_3_state \<and> currentPage page_3_state = totalPages page_3_state \<and>
   currentPage (click_next page_3_state) = 3 \<and>
   currentPage (click_prev page_3_state) = 2 \<and>
   currentPage (click_prev (click_prev (click_prev page_3_state))) = 1 \<and>
   c_main_view thirteen_on_page_3 \<and>
   c_currentPage thirteen_on_page_3 = c_totalPages thirteen_on_page_3 \<and>
   c_currentPage (c_click_next thirteen_on_page_3) = 3 \<and>
   c_currentPage (c_click_prev thirteen_on_page_3) = 2"
proof -
  have s: "pagination_shown page_3_state"
    by (simp add: pagination_shown_def main_view_def page_3_state_def busy_state_def
        init_state_def error_truthy_def)
  have p: "currentPage page_3_state = 3 \<and> totalPages page_3_state = 3"
    by (simp add: page_3_state_def busy_state_def)
  have c: "c_main_view thirteen_on_page_3"
    by (simp add: c_main_view_def thirteen_on_page_3_def error_truthy_def)
  have q: "c_currentPage thirteen_on_page_3 = 3 \<and> c_totalPages thirteen_on_page_3 = 3"
    by (simp add: thirteen_on_page_3_def c_totalPages_def math_ceil_div_def RECIPES_PER_PAGE_def)
  have down: "currentPage (click_prev (click_prev (click_prev page_3_state))) = 1"
    by (simp add: click_prev_def prev_page_def pagination_shown_def main_view_def
        page_3_state_def busy_state_def init_state_def error_truthy_def)
  from clamp_law [where s = page_3_state and c = thirteen_on_page_3 and t = 3] s p c q down
  show ?thesis by simp
qed

section \<open>The detail overlay\<close>

lemma map_indexed_texts: "map li_text (map_indexed (\<lambda>x index. Li index x) xs) = xs"
proof -
  have "map li_text (map_indexed (\<lambda>x index. Li index x) xs) = map fst (zip xs [0..<length xs])"
    by (simp add: map_indexed_def case_prod_unfold comp_def)
  then show ?thesis by simp
qed

lemma map_indexed_keys: "map li_key (map_indexed (\<lambda>x index. Li index x) xs) = [0..<length xs]"
proof -
  have "map li_key (map_indexed (\<lambda>x index. Li index x) xs) = map snd (zip xs [0..<length xs])"
    by (simp add: map_indexed_def case_prod_unfold comp_def)
  then show ?thesis by simp
qed

lemma step_card_click:
  "main_view s \<Longrightarrow> r \<in> set (recipes s) \<Longrightarrow> step s (CardClick r) = onCardClick r s"
  by (simp add: step_def after_render_def fetch_triggered_def effect_deps_def onCardClick_def)

lemma step_modal_click: "step s (ModalClick target) = click_modal target s"
  by (cases target)
    (simp_all add: step_def after_render_def fetch_triggered_def effect_deps_def
      click_modal_def onClose_def)

text \<open>
  Claim C8. A click on a card stores that recipe as the selection, and the overlay then
  shows its detail; the detail lists every ingredient and every instruction in the
  recipe's order. A click on the close button or on the overlay's background clears the
  selection, so the overlay is gone; a click on the content region, or on anything in it
  but the close button, leaves the state as it is.
\<close>

theorem detail_overlay_behaviour:
  "selectedRecipe (onCardClick r s) = Some r \<and>
   (main_view s \<and> r \<in> set (recipes s) \<longrightarrow>
      selectedRecipe (step s (CardClick r)) = Some r \<and>
      render_detail (step s (CardClick r)) = Some (RecipeDetail r)) \<and>
   map li_text (dv_ingredients (RecipeDetail r)) = ingredients r \<and>
   map li_text (dv_instructions (RecipeDetail r)) = instructions r \<and>
   (detail_shown s \<longrightarrow>
      selectedRecipe (step s (ModalClick ModalCloseButton)) = None \<and>
      render_detail (step s (ModalClick ModalCloseButton)) = None \<and>
      selectedRecipe (step s (ModalClick ModalOverlay)) = None \<and>
      render_detail (step s (ModalClick ModalOverlay)) = None \<and>
      step s (ModalClick ModalContent) = s \<and>
      step s (ModalClick ModalInner) = s \<and>
      render_detail (step s (ModalClick ModalContent)) = render_detail s)"
proof -
  have sel: "selectedRecipe (onCardClick r s) = Some r"
    by (simp add: onCardClick_def)
  have opened: "render_detail (onCardClick r s) = Some (RecipeDetail r)" if "main_view s"
    using that by (simp add: render_detail_def onCardClick_def main_view_def)
  have lists: "map li_text (dv_ingredients (RecipeDetail r)) = ingredients r \<and>
               map li_text (dv_instructions (RecipeDetail r)) = instructions r"
    by (simp add: RecipeDetail_def map_indexed_texts)
  have closes: "selectedRecipe (click_modal ModalCloseButton s) = None \<and>
                selectedRecipe (click_modal ModalOverlay s) = None" if "detail_shown s"
    using that by (simp add: click_modal_def onClose_def)
  have hidden: "render_detail t = None" if "selectedRecipe t = None" for t
    using that by (simp add: render_detail_def)
  have stays: "click_modal ModalContent s = s \<and> click_modal ModalInner s = s"
    by (simp add: click_modal_def)
  show ?thesis
    using sel opened lists closes hidden stays
    by (simp add: step_card_click step_modal_click)
qed

theorem detail_overlay_behaviour_witness:
  "main_view busy_state \<and> margherita \<in> set (recipes busy_state) \<and>
   step busy_state (CardClick margherita) = open_state \<and>
   detail_shown open_state \<and>
   map li_text (dv_ingredients (RecipeDetail margherita)) =
     [''Pizza dough'', ''Tomato sauce'', ''Fresh mozzarella cheese''] \<and>
   selectedRecipe (step open_state (ModalClick ModalCloseButton)) = None \<and>
   selectedRecipe (step open_state (ModalClick ModalOverlay)) = None \<and>
   step open_state (ModalClick ModalContent) = open_state"
proof -
  have m: "main_view busy_state"
    by (simp add: main_view_def busy_state_def init_state_def error_truthy_def)
  have r: "margherita \<in> set (recipes busy_state)"
    by (simp add: busy_state_def)
  have o: "step busy_state (CardClick margherita) = open_state"
    using m r by (simp add: step_card_click onCardClick_def open_state_def)
  have d: "detail_shown open_state"
    by (simp add: detail_shown_def open_state_def main_view_def busy_state_def init_state_def
        error_truthy_def)
  have i: "ingredients margherita = [''Pizza dough'', ''Tomato sauce'', ''Fresh mozzarella cheese'']"
    by (simp add: margherita_def)
  from detail_overlay_behaviour [of margherita open_state] m r o d i
  show ?thesis by simp
qed

text \<open>
  Claim C10. Selecting a card and closing the overlay change the selection only: the
  recipes, the page count, the page, the search text, the sort field and order, the
  loading flag and the error stay as they were, no dependency of the effect changes, and
  so no fetch starts.
\<close>

theorem selection_changes_nothing_else:
  "same_but_selection s (onCardClick r s) \<and> same_but_selection s (onClose s) \<and>
   \<not> fetch_triggered s (onCardClick r s) \<and> \<not> fetch_triggered s (onClose s) \<and>
   same_but_selection s (step s (CardClick r)) \<and>
   same_but_selection s (step s (ModalClick target)) \<and>
   \<not> fetch_triggered s (handle s (CardClick r)) \<and>
   \<not> fetch_triggered s (handle s (ModalClick target)) \<and>
   step s (CardClick r) = handle s (CardClick r) \<and>
   step s (ModalClick target) = handle s (ModalClick target)"
proof -
  have card: "same_but_selection s (onCardClick r s) \<and> \<not> fetch_triggered s (onCardClick r s)"
    by (simp add: same_but_selection_def fetch_triggered_def effect_deps_def onCardClick_def)
  have close: "same_but_selection s (onClose s) \<and> \<not> fetch_triggered s (onClose s)"
    by (simp add: same_but_selection_def fetch_triggered_def effect_deps_def onClose_def)
  have refl: "same_but_selection s s \<and> \<not> fetch_triggered s s"
    by (simp add: same_but_selection_def fetch_triggered_def)
  have hcard: "handle s (CardClick r) = onCardClick r s \<or> handle s (CardClick r) = s"
    by simp
  have hmodal: "handle s (ModalClick target) = onClose s \<or> handle s (ModalClick target) = s"
    by (cases target) (simp_all add: click_modal_def)
  have quiet: "step s ev = handle s ev" if "\<not> fetch_triggered s (handle s ev)" for ev
    using that by (simp add: step_def after_render_def)
  have c1: "same_but_selection s (handle s (CardClick r)) \<and>
            \<not> fetch_triggered s (handle s (CardClick r))"
    using hcard card refl by metis
  have c2: "same_but_selection s (handle s (ModalClick target)) \<and>
            \<not> fetch_triggered s (handle s (ModalClick target))"
    using hmodal close refl by metis
  show ?thesis
    using card close c1 c2 quiet by simp
qed

end
